theory Spec2Isabelle
  imports Complex_Main "HOL-Library.Sublist"
begin

section \<open>Python strings\<close>

text \<open>
  A Python \<open>str\<close> is a sequence of Unicode code points; \<open>len\<close>, \<open>in\<close> and
  \<open>lower\<close> all work on code points. A text is therefore a list of code points, and
  \<open>py\<close> reads an ASCII literal of the source as such a list.
\<close>

type_synonym pystr = "nat list"

definition py :: "string \<Rightarrow> pystr" where
  "py s = map of_char s"

text \<open>
  \<open>sub in s\<close> on strings: true when \<open>sub\<close> occurs in \<open>s\<close> at some position; the
  empty string occurs in every string, also in the empty one.
\<close>

fun py_in :: "pystr \<Rightarrow> pystr \<Rightarrow> bool" where
  "py_in sub [] = (sub = [])"
| "py_in sub (c # s) = (prefix sub (c # s) \<or> py_in sub s)"

text \<open>
  \<open>str.lower()\<close>. CPython maps every code point through the full lowercase mapping of
  the Unicode character database, except U+03A3 (capital sigma), which becomes the final
  sigma U+03C2 when a cased letter precedes it and none follows it (case-ignorable
  code points skipped on both sides), and U+03C3 otherwise. The mapping of the ASCII
  range is written out; the rest of the database is not part of this repository and is a
  parameter.
\<close>

record unicode_db =
  ToLowerFull :: "nat \<Rightarrow> nat list"
  IsCased :: "nat \<Rightarrow> bool"
  IsCaseIgnorable :: "nat \<Rightarrow> bool"

definition to_lower_full :: "unicode_db \<Rightarrow> nat \<Rightarrow> nat list" where
  "to_lower_full db c =
     (if c < 128 then (if 65 \<le> c \<and> c \<le> 90 then [c + 32] else [c])
      else ToLowerFull db c)"

text \<open>
  \<open>left\<close> holds the code points left of the sigma, nearest first; \<open>right\<close> those
  right of it.
\<close>

definition handle_capital_sigma :: "unicode_db \<Rightarrow> pystr \<Rightarrow> pystr \<Rightarrow> nat" where
  "handle_capital_sigma db left right =
     (case dropWhile (IsCaseIgnorable db) left of
        [] \<Rightarrow> 0x3C3
      | b # _ \<Rightarrow>
          if IsCased db b then
            (case dropWhile (IsCaseIgnorable db) right of
               [] \<Rightarrow> 0x3C2
             | a # _ \<Rightarrow> if IsCased db a then 0x3C3 else 0x3C2)
          else 0x3C3)"

definition lower_ucs4 :: "unicode_db \<Rightarrow> pystr \<Rightarrow> nat \<Rightarrow> pystr \<Rightarrow> nat list" where
  "lower_ucs4 db left c right =
     (if c = 0x3A3 then [handle_capital_sigma db left right] else to_lower_full db c)"

fun do_lower :: "unicode_db \<Rightarrow> pystr \<Rightarrow> pystr \<Rightarrow> pystr" where
  "do_lower db left [] = []"
| "do_lower db left (c # right) =
     lower_ucs4 db left c right @ do_lower db (c # left) right"

definition lower :: "unicode_db \<Rightarrow> pystr \<Rightarrow> pystr" where
  "lower db text = do_lower db [] text"

text \<open>
  A database for running the definitions on ASCII texts: every code point beyond ASCII
  is left as it is and is neither cased nor case-ignorable.
\<close>

definition ascii_db :: unicode_db where
  "ascii_db = \<lparr>ToLowerFull = (\<lambda>c. [c]), IsCased = (\<lambda>c. False), IsCaseIgnorable = (\<lambda>c. False)\<rparr>"

section \<open>The domain filter\<close>

definition allowed_domains :: "pystr list" where
  "allowed_domains = map py
     [''clothing'', ''fashion'', ''shopping'', ''accessories'', ''sustainability'',
      ''shoes'', ''hats'', ''shirts'', ''dresses'', ''pants'', ''jeans'', ''skirts'',
      ''jackets'', ''coats'', ''t-shirts'', ''sweaters'', ''hoodies'', ''activewear'',
      ''formal wear'', ''casual wear'', ''sportswear'', ''outerwear'', ''swimwear'',
      ''underwear'', ''lingerie'', ''socks'', ''scarves'', ''gloves'', ''belts'', ''ties'',
      ''caps'', ''beanies'', ''boots'', ''sandals'', ''heels'', ''sneakers'', ''materials'',
      ''cotton'', ''polyester'', ''wool'', ''silk'', ''leather'', ''denim'', ''linen'',
      ''athleisure'', ''ethnic wear'', ''fashion trends'', ''custom clothing'',
      ''tailoring'', ''sustainable materials'', ''recycled clothing'', ''fashion brands'',
      ''streetwear'']"

fun is_text_in_allowed_domain :: "unicode_db \<Rightarrow> pystr \<Rightarrow> pystr list \<Rightarrow> bool" where
  "is_text_in_allowed_domain db text [] = False"
| "is_text_in_allowed_domain db text (domain # domains) =
     (if py_in domain (lower db text) then True
      else is_text_in_allowed_domain db text domains)"

section \<open>Floating-point scores\<close>

text \<open>
  A Python \<open>float\<close> is a finite number, an infinity or a NaN. A \<open>numpy.float32\<close>
  scalar holds a value of the same kind, and \<open>float(x)\<close> widens it without changing
  the value.
\<close>

datatype pyfloat = Finite real | Infinity bool | NaN

datatype np_float32 = Float32 pyfloat

fun float :: "np_float32 \<Rightarrow> pyfloat" where
  "float (Float32 v) = v"


section \<open>Request and response models\<close>

record Entity =
  word :: pystr
  entity_group :: pystr
  score :: pyfloat

record NERResponse =
  entities :: "Entity list"

record QAResponse =
  question :: pystr
  answer :: pystr
  score :: pyfloat

record CombinedRequest =
  "text" :: pystr

record CombinedResponse =
  ner :: NERResponse
  qa :: QAResponse

section \<open>The two pipelines\<close>

text \<open>
  \<open>ner_pipeline\<close> and \<open>qa_pipeline\<close> are objects of the transformers library, built
  once when the module is loaded. The handler only calls them, so they are parameters:
  a call either raises (\<open>Inl\<close>, with whatever exception the library raised) or returns
  its result. Of a grouped entity the handler reads the keys \<open>word\<close>,
  \<open>entity_group\<close> and \<open>score\<close>, of a QA result the keys \<open>answer\<close> and
  \<open>score\<close>; the records below hold the values under these keys.
\<close>

record ner_dict =
  ner_word :: pystr
  ner_entity_group :: pystr
  ner_score :: np_float32

record qa_dict =
  qa_answer :: pystr
  qa_score :: np_float32

type_synonym 'e ner_model = "pystr \<Rightarrow> 'e + ner_dict list"

text \<open>The first argument is \<open>question\<close>, the second \<open>context\<close>.\<close>

type_synonym 'e qa_model = "pystr \<Rightarrow> pystr \<Rightarrow> 'e + qa_dict"

text \<open>
  To tell which pipeline calls a request made, every call is appended to a log that
  is passed through the handlers.
\<close>

datatype call = Ner_call pystr | Qa_call pystr pystr

definition call_ner :: "'e ner_model \<Rightarrow> pystr \<Rightarrow> call list \<Rightarrow> ('e + ner_dict list) \<times> call list" where
  "call_ner ner_pipeline t calls = (ner_pipeline t, calls @ [Ner_call t])"

definition call_qa :: "'e qa_model \<Rightarrow> pystr \<Rightarrow> pystr \<Rightarrow> call list \<Rightarrow> ('e + qa_dict) \<times> call list" where
  "call_qa qa_pipeline q c calls = (qa_pipeline q c, calls @ [Qa_call q c])"

section \<open>The request handlers\<close>

text \<open>
  What a handler raises: the \<open>HTTPException\<close> it builds itself, or an exception of a
  pipeline call, which no \<open>try\<close> of the handler catches.
\<close>

datatype 'e raised = HTTPException nat pystr | Propagated 'e

definition domain_detail :: pystr where
  "domain_detail = py (''The input text does not match the allowed domains. '' @
     ''Please provide a query related to clothing, fashion, or accessories.'')"

definition format_entity :: "ner_dict \<Rightarrow> Entity" where
  "format_entity entity =
     \<lparr>word = ner_word entity, entity_group = ner_entity_group entity,
      score = float (ner_score entity)\<rparr>"

definition process_request ::
  "unicode_db \<Rightarrow> 'e ner_model \<Rightarrow> 'e qa_model \<Rightarrow> CombinedRequest \<Rightarrow> call list
     \<Rightarrow> ('e raised + CombinedResponse) \<times> call list" where
  "process_request db ner_pipeline qa_pipeline request calls =
     (let input_text = text request in
      if \<not> is_text_in_allowed_domain db input_text allowed_domains
      then (Inl (HTTPException 400 domain_detail), calls)
      else
        (case call_ner ner_pipeline input_text calls of
           (Inl e, calls1) \<Rightarrow> (Inl (Propagated e), calls1)
         | (Inr ner_entities, calls1) \<Rightarrow>
             (let formatted_entities = map format_entity ner_entities;
                  ner_response = \<lparr>entities = formatted_entities\<rparr>
              in case call_qa qa_pipeline input_text input_text calls1 of
                   (Inl e, calls2) \<Rightarrow> (Inl (Propagated e), calls2)
                 | (Inr qa_result, calls2) \<Rightarrow>
                     (let qa_response =
                            \<lparr>question = input_text, answer = qa_answer qa_result,
                             score = float (qa_score qa_result)\<rparr>
                      in (Inr \<lparr>ner = ner_response, qa = qa_response\<rparr>, calls2)))))"

text \<open>The root endpoint returns a dictionary with one key.\<close>

definition root :: "call list \<Rightarrow> ('e raised + (pystr \<times> pystr) list) \<times> call list" where
  "root calls = (Inr [(py ''message'', py ''Welcome to the filtered NER and QA API!'')], calls)"

text \<open>
  Two pipelines for running the handler: the entities and the answer are those of the
  sample response at the end of \<open>main.py\<close>.
\<close>

definition sample_ner :: "unit ner_model" where
  "sample_ner t =
     Inr [\<lparr>ner_word = py ''Nike'', ner_entity_group = py ''ORG'',
            ner_score = Float32 (Finite (995 / 1000))\<rparr>,
          \<lparr>ner_word = py ''running shoes'', ner_entity_group = py ''PRODUCT'',
            ner_score = Float32 (Finite (987 / 1000))\<rparr>]"

definition sample_qa :: "unit qa_model" where
  "sample_qa q c = Inr \<lparr>qa_answer = py ''Nike Air Zoom Pegasus'', qa_score = Float32 (Finite (978 / 1000))\<rparr>"

definition failing_ner :: "unit ner_model" where
  "failing_ner t = Inl ()"

definition failing_qa :: "unit qa_model" where
  "failing_qa q c = Inl ()"

definition sample_request :: CombinedRequest where
  "sample_request = \<lparr>text = py ''I need new running shoes''\<rparr>"

definition sample_response :: CombinedResponse where
  "sample_response =
     \<lparr>ner = \<lparr>entities =
        [\<lparr>word = py ''Nike'', entity_group = py ''ORG'', score = Finite (995 / 1000)\<rparr>,
         \<lparr>word = py ''running shoes'', entity_group = py ''PRODUCT'', score = Finite (987 / 1000)\<rparr>]\<rparr>,
      qa = \<lparr>question = py ''I need new running shoes'', answer = py ''Nike Air Zoom Pegasus'',
            score = Finite (978 / 1000)\<rparr>\<rparr>"

definition rejected_request :: CombinedRequest where
  "rejected_request = \<lparr>text = py ''What is the capital of France?''\<rparr>"




section \<open>Auxiliary notions for the proofs\<close>

text \<open>
  The two small sigmas are the only code points whose appearance in a lowercased text
  depends on the neighbours of the code point they come from. \<open>fold_sigma\<close>
  identifies them; \<open>lower_char\<close> is what one code point contributes to the lowercased
  text up to this identification, whatever stands around it.
\<close>

definition fold_sigma :: "pystr \<Rightarrow> pystr" where
  "fold_sigma s = map (\<lambda>c. if c = 0x3C2 then 0x3C3 else c) s"

definition lower_char :: "unicode_db \<Rightarrow> nat \<Rightarrow> pystr" where
  "lower_char db c = fold_sigma (if c = 0x3A3 then [0x3C3] else to_lower_full db c)"

definition sigma_free :: "pystr \<Rightarrow> bool" where
  "sigma_free d = (0x3C2 \<notin> set d \<and> 0x3C3 \<notin> set d)"

text \<open>
  The Greek letters U+0391 to U+03CE as the Unicode database has them: the capitals
  U+0391 to U+03AB have their small letter 32 places further, and all of them are cased
  (U+03A2 is unassigned). Other code points are left alone.
\<close>

definition greek_db :: unicode_db where
  "greek_db =
     \<lparr>ToLowerFull = (\<lambda>c. if 0x391 \<le> c \<and> c \<le> 0x3AB \<and> c \<noteq> 0x3A2 then [c + 32] else [c]),
      IsCased = (\<lambda>c. 0x391 \<le> c \<and> c \<le> 0x3CE \<and> c \<noteq> 0x3A2),
      IsCaseIgnorable = (\<lambda>c. False)\<rparr>"

section \<open>Properties of the domain filter\<close>

lemmas run_filter = allowed_domains_def py_def lower_def lower_ucs4_def to_lower_full_def ascii_db_def

lemma py_in_sublist: "py_in sub s = sublist sub s"
  by (induction s) (auto simp: sublist_Cons_right)

lemma filter_iff:
  "is_text_in_allowed_domain db t domains = (\<exists>d\<in>set domains. sublist d (lower db t))"
  by (induction domains) (auto simp: py_in_sublist)

lemma lower_Nil: "lower db [] = []"
  by (simp add: lower_def)

lemma accepted_example:
  "is_text_in_allowed_domain ascii_db (py ''I need new running shoes'') allowed_domains"
  by (simp add: run_filter)

lemma rejected_example:
  "\<not> is_text_in_allowed_domain ascii_db (py ''What is the capital of France?'') allowed_domains"
  by (simp add: run_filter)

lemma no_empty_keyword: "[] \<notin> set allowed_domains"
  by (simp add: allowed_domains_def py_def)

text \<open>
  Claim C1, as amended. For every text and every keyword list, the filter returns true
  exactly when some keyword occurs as a substring of the lowercased text. For the empty
  text it returns false whenever no keyword is the empty string, as in the configured
  list.
\<close>

theorem filter_characterisation:
  "is_text_in_allowed_domain db t domains = (\<exists>d\<in>set domains. sublist d (lower db t))
   \<and> ([] \<notin> set domains \<longrightarrow> \<not> is_text_in_allowed_domain db [] domains)"
  by (auto simp: filter_iff lower_Nil)

theorem filter_characterisation_witness:
  "[] \<notin> set allowed_domains \<and> \<not> is_text_in_allowed_domain ascii_db [] allowed_domains"
  using filter_characterisation [of ascii_db "[]" allowed_domains] no_empty_keyword
  by blast

text \<open>
  Claim C1 as it is written fails: the list holding only the empty keyword is not
  empty, and with it the empty text is accepted, since the empty string occurs in every
  string.
\<close>

theorem empty_keyword_counterexample:
  "[[]] \<noteq> [] \<and> is_text_in_allowed_domain ascii_db [] [[]]"
  by (simp add: lower_def)

subsection \<open>Keywords inside longer words\<close>

lemma do_lower_append: "\<exists>x. do_lower db l (p @ r) = x @ do_lower db (rev p @ l) r"
proof (induction p arbitrary: l)
  case Nil
  show ?case by simp
next
  case (Cons c p)
  from Cons.IH [of "c # l"] obtain x
    where "do_lower db (c # l) (p @ r) = x @ do_lower db (rev p @ c # l) r" ..
  then show ?case by simp
qed

lemma do_lower_plain:
  "0x3A3 \<notin> set m \<Longrightarrow>
     do_lower db l (m @ r) = concat (map (to_lower_full db) m) @ do_lower db (rev m @ l) r"
  by (induction m arbitrary: l) (auto simp: lower_ucs4_def)

lemma lower_middle:
  assumes "0x3A3 \<notin> set m"
  shows "\<exists>x y. lower db (p @ m @ s) = x @ concat (map (to_lower_full db) m) @ y"
proof -
  obtain x where "do_lower db [] (p @ m @ s) = x @ do_lower db (rev p @ []) (m @ s)"
    using do_lower_append by blast
  with do_lower_plain [OF assms] show ?thesis
    by (auto simp: lower_def)
qed

lemma capsize_fixed:
  "0x3A3 \<notin> set (py ''capsize'')
   \<and> concat (map (to_lower_full db) (py ''capsize'')) = py ''caps'' @ py ''ize''"
  by (simp add: py_def to_lower_full_def)

lemma caps_keyword: "py ''caps'' \<in> set allowed_domains"
  by (simp add: allowed_domains_def py_def)

lemma cap_no_keyword: "py ''cap'' \<notin> set allowed_domains"
  by (simp add: allowed_domains_def py_def)

text \<open>
  Claim C6, as amended. Every text containing \<open>capsize\<close> is accepted by the filter with
  the configured keyword list: the keyword \<open>caps\<close> occurs in its lowercased form.
\<close>

theorem capsize_matches_caps:
  "sublist (py ''capsize'') t \<Longrightarrow>
     py ''caps'' \<in> set allowed_domains \<and> sublist (py ''caps'') (lower db t)
     \<and> is_text_in_allowed_domain db t allowed_domains"
proof -
  assume "sublist (py ''capsize'') t"
  then obtain p s where t: "t = p @ py ''capsize'' @ s"
    by (auto simp: sublist_def)
  from capsize_fixed [of db] lower_middle [of "py ''capsize''" db p s]
  obtain x y where "lower db t = x @ (py ''caps'' @ py ''ize'') @ y"
    unfolding t by metis
  then have "lower db t = x @ py ''caps'' @ (py ''ize'' @ y)"
    by simp
  then have "sublist (py ''caps'') (lower db t)"
    by (metis sublist_appendI)
  with caps_keyword show ?thesis
    by (auto simp: filter_iff)
qed

theorem capsize_matches_caps_witness:
  "sublist (py ''capsize'') (py ''Boats capsize.'')
   \<and> is_text_in_allowed_domain ascii_db (py ''Boats capsize.'') allowed_domains"
proof -
  have h: "sublist (py ''capsize'') (py ''Boats capsize.'')"
    unfolding py_in_sublist [symmetric] by (simp add: py_def)
  from capsize_matches_caps [OF h, of ascii_db] h show ?thesis
    by blast
qed

text \<open>
  Claim C6 as it is written names the keyword \<open>cap\<close>, which the configured list does
  not hold: at the text \<open>capsize\<close> the filter does not match a keyword \<open>cap\<close>.
\<close>

theorem capsize_cap_counterexample:
  "\<not> (py ''cap'' \<in> set allowed_domains
      \<and> is_text_in_allowed_domain ascii_db (py ''capsize'') allowed_domains)"
  using cap_no_keyword by blast

subsection \<open>Extending an accepted text\<close>

lemma handle_capital_sigma_cases:
  "handle_capital_sigma db l r = 0x3C2 \<or> handle_capital_sigma db l r = 0x3C3"
  by (simp add: handle_capital_sigma_def split: list.split)

lemma fold_lower_ucs4: "fold_sigma (lower_ucs4 db l c r) = lower_char db c"
  using handle_capital_sigma_cases [of db l r]
  by (auto simp: lower_ucs4_def lower_char_def fold_sigma_def)

lemma fold_sigma_append: "fold_sigma (a @ b) = fold_sigma a @ fold_sigma b"
  by (simp add: fold_sigma_def)

lemma fold_do_lower: "fold_sigma (do_lower db l s) = concat (map (lower_char db) s)"
proof (induction s arbitrary: l)
  case Nil
  show ?case by (simp add: fold_sigma_def)
next
  case (Cons c s)
  then show ?case by (simp add: fold_sigma_append fold_lower_ucs4)
qed

lemma fold_lower_append3:
  "fold_sigma (lower db (p @ t @ s)) =
     fold_sigma (lower db p) @ fold_sigma (lower db t) @ fold_sigma (lower db s)"
  by (simp add: lower_def fold_do_lower)

lemma fold_sigma_free: "sigma_free d \<Longrightarrow> fold_sigma d = d"
  by (auto simp: sigma_free_def fold_sigma_def intro: map_idI)

lemma fold_sigma_eq_free:
  assumes "fold_sigma d' = d" and "sigma_free d"
  shows "d' = d"
proof -
  have "c \<noteq> 0x3C2" if "c \<in> set d'" for c
  proof
    assume "c = 0x3C2"
    with that have "0x3C3 \<in> set (fold_sigma d')"
      by (force simp: fold_sigma_def)
    with assms show False by (simp add: sigma_free_def)
  qed
  then have "fold_sigma d' = d'"
    by (auto simp: fold_sigma_def intro: map_idI)
  with assms show ?thesis by simp
qed

lemma sublist_lower_extend:
  assumes "sigma_free d" and "sublist d (lower db t)"
  shows "sublist d (lower db (p @ t @ s))"
proof -
  from assms(2) have "sublist (fold_sigma d) (fold_sigma (lower db t))"
    unfolding fold_sigma_def by (rule map_mono_sublist)
  then have "sublist d (fold_sigma (lower db p) @ fold_sigma (lower db t) @ fold_sigma (lower db s))"
    using assms(1) by (auto simp: fold_sigma_free sublist_append)
  then have "sublist d (fold_sigma (lower db (p @ t @ s)))"
    by (simp add: fold_lower_append3)
  then have "\<exists>d'. sublist d' (lower db (p @ t @ s)) \<and> d = fold_sigma d'"
    unfolding fold_sigma_def by (rule sublist_map_rightE)
  then obtain d' where "sublist d' (lower db (p @ t @ s))" and "d = fold_sigma d'"
    by blast
  with assms(1) show ?thesis
    using fold_sigma_eq_free [of d' d] by auto
qed

lemma allowed_domains_sigma_free: "\<forall>d\<in>set allowed_domains. sigma_free d"
  by (simp add: allowed_domains_def py_def sigma_free_def)

text \<open>
  Claim C9, as amended. For a keyword list none of whose keywords holds a small sigma
  (U+03C2 or U+03C3), so for every list of ASCII keywords and for the configured list,
  a text the filter accepts is still accepted with any text put before and after it.
\<close>

theorem filter_monotone_extension:
  assumes "\<forall>d\<in>set domains. sigma_free d" and "is_text_in_allowed_domain db t domains"
  shows "is_text_in_allowed_domain db (p @ t @ s) domains"
  using assms by (auto simp: filter_iff intro: sublist_lower_extend)

theorem filter_monotone_extension_witness:
  "is_text_in_allowed_domain ascii_db (py ''I need new running shoes'') allowed_domains
   \<and> is_text_in_allowed_domain ascii_db
        (py ''Hello! '' @ py ''I need new running shoes'' @ py '' Thanks.'') allowed_domains"
  using filter_monotone_extension [OF allowed_domains_sigma_free accepted_example,
      of "py ''Hello! ''" "py '' Thanks.''"]
    accepted_example
  by (intro conjI)

text \<open>
  Claim C9 as it is written, for any keyword list, fails. Python lowercases a capital
  sigma by its context: at the end of a word it becomes the final sigma U+03C2, inside a
  word U+03C3. With the final sigma as the only keyword, the text of the two letters
  capital alpha, capital sigma is accepted, and the same text followed by a capital
  alpha is rejected.
\<close>

theorem final_sigma_counterexample:
  "is_text_in_allowed_domain greek_db [0x391, 0x3A3] [[0x3C2]]
   \<and> \<not> is_text_in_allowed_domain greek_db ([] @ [0x391, 0x3A3] @ [0x391]) [[0x3C2]]"
  by (simp add: lower_def lower_ucs4_def to_lower_full_def handle_capital_sigma_def greek_db_def)

section \<open>Properties of the request handlers\<close>

lemma domain_detail_topics:
  "sublist (py ''clothing'') domain_detail \<and> sublist (py ''fashion'') domain_detail
   \<and> sublist (py ''accessories'') domain_detail"
  unfolding py_in_sublist [symmetric] by (simp add: domain_detail_def py_def)

lemma process_request_rejected:
  "\<not> is_text_in_allowed_domain db (text request) allowed_domains \<Longrightarrow>
     process_request db ner_pipeline qa_pipeline request calls =
       (Inl (HTTPException 400 domain_detail), calls)"
  by (simp add: process_request_def)

lemma process_request_accepted:
  "is_text_in_allowed_domain db (text request) allowed_domains \<Longrightarrow>
     process_request db ner_pipeline qa_pipeline request calls =
       (case ner_pipeline (text request) of
          Inl e \<Rightarrow> (Inl (Propagated e), calls @ [Ner_call (text request)])
        | Inr es \<Rightarrow>
            (case qa_pipeline (text request) (text request) of
               Inl e \<Rightarrow>
                 (Inl (Propagated e),
                  calls @ [Ner_call (text request), Qa_call (text request) (text request)])
             | Inr a \<Rightarrow>
                 (Inr \<lparr>ner = \<lparr>entities = map format_entity es\<rparr>,
                        qa = \<lparr>question = text request, answer = qa_answer a,
                              score = float (qa_score a)\<rparr>\<rparr>,
                  calls @ [Ner_call (text request), Qa_call (text request) (text request)])))"
  by (simp add: process_request_def call_ner_def call_qa_def Let_def split: sum.split)

lemma process_request_Inr:
  assumes "fst (process_request db ner_pipeline qa_pipeline request calls) = Inr resp"
  obtains es a where "ner_pipeline (text request) = Inr es"
    and "qa_pipeline (text request) (text request) = Inr a"
    and "is_text_in_allowed_domain db (text request) allowed_domains"
    and "resp = \<lparr>ner = \<lparr>entities = map format_entity es\<rparr>,
                qa = \<lparr>question = text request, answer = qa_answer a,
                      score = float (qa_score a)\<rparr>\<rparr>"
proof (cases "is_text_in_allowed_domain db (text request) allowed_domains")
  case False
  with assms show ?thesis by (simp add: process_request_rejected)
next
  case True
  with assms that show ?thesis
    by (cases "ner_pipeline (text request)"; cases "qa_pipeline (text request) (text request)")
       (auto simp: process_request_accepted)
qed

lemma sample_accepted:
  "is_text_in_allowed_domain ascii_db (text sample_request) allowed_domains"
  using accepted_example by (simp add: sample_request_def)

lemma sample_rejected:
  "\<not> is_text_in_allowed_domain ascii_db (text rejected_request) allowed_domains"
  using rejected_example by (simp add: rejected_request_def)

lemma sample_run:
  "process_request ascii_db sample_ner sample_qa sample_request [] =
     (Inr sample_response,
      [Ner_call (text sample_request), Qa_call (text sample_request) (text sample_request)])"
  by (subst process_request_accepted [OF sample_accepted])
     (simp add: sample_ner_def sample_qa_def format_entity_def sample_response_def
        sample_request_def)

text \<open>
  Claim C2. A request whose text fails the filter against the configured keyword list
  ends in the HTTPException with status 400 whose detail names clothing, fashion and
  accessories, and the log of pipeline calls is as it was: neither model is called.
\<close>

theorem rejected_request_400:
  "\<not> is_text_in_allowed_domain db (text request) allowed_domains \<Longrightarrow>
     process_request db ner_pipeline qa_pipeline request calls =
       (Inl (HTTPException 400 domain_detail), calls)
     \<and> sublist (py ''clothing'') domain_detail \<and> sublist (py ''fashion'') domain_detail
     \<and> sublist (py ''accessories'') domain_detail"
  using domain_detail_topics by (simp add: process_request_rejected)

theorem rejected_request_400_witness:
  "\<not> is_text_in_allowed_domain ascii_db (text rejected_request) allowed_domains
   \<and> process_request ascii_db sample_ner sample_qa rejected_request []
       = (Inl (HTTPException 400 domain_detail), [])"
  using rejected_request_400 [OF sample_rejected, of sample_ner sample_qa "[]"] sample_rejected
  by blast

text \<open>
  Claim C3. For an accepted request there are three outcomes and no other: both
  pipeline calls return and the handler returns the combined response built from both
  results; the NER call raises and that exception leaves the handler, the QA pipeline
  not being called; or the NER call returns, the QA call raises and that exception leaves
  the handler. No outcome carries the result of one stage alone.
\<close>

theorem process_request_all_or_nothing:
  "is_text_in_allowed_domain db (text request) allowed_domains \<Longrightarrow>
     (\<exists>es a. ner_pipeline (text request) = Inr es
        \<and> qa_pipeline (text request) (text request) = Inr a
        \<and> fst (process_request db ner_pipeline qa_pipeline request calls) =
            Inr \<lparr>ner = \<lparr>entities = map format_entity es\<rparr>,
                 qa = \<lparr>question = text request, answer = qa_answer a,
                       score = float (qa_score a)\<rparr>\<rparr>)
     \<or> (\<exists>e. ner_pipeline (text request) = Inl e
        \<and> process_request db ner_pipeline qa_pipeline request calls =
            (Inl (Propagated e), calls @ [Ner_call (text request)]))
     \<or> (\<exists>es e. ner_pipeline (text request) = Inr es
        \<and> qa_pipeline (text request) (text request) = Inl e
        \<and> fst (process_request db ner_pipeline qa_pipeline request calls) = Inl (Propagated e))"
  by (cases "ner_pipeline (text request)"; cases "qa_pipeline (text request) (text request)")
     (simp_all add: process_request_accepted)

theorem process_request_all_or_nothing_witness:
  "is_text_in_allowed_domain ascii_db (text sample_request) allowed_domains
   \<and> fst (process_request ascii_db sample_ner sample_qa sample_request []) = Inr sample_response
   \<and> process_request ascii_db failing_ner sample_qa sample_request [] =
       (Inl (Propagated ()), [Ner_call (text sample_request)])
   \<and> fst (process_request ascii_db sample_ner failing_qa sample_request []) = Inl (Propagated ())"
proof -
  have "fst (process_request ascii_db sample_ner sample_qa sample_request []) = Inr sample_response"
    using process_request_all_or_nothing [OF sample_accepted, of sample_ner sample_qa "[]"]
    by (simp add: sample_run)
  moreover have "process_request ascii_db failing_ner sample_qa sample_request [] =
       (Inl (Propagated ()), [Ner_call (text sample_request)])"
    using process_request_all_or_nothing [OF sample_accepted, of failing_ner sample_qa "[]"]
    by (simp add: failing_ner_def)
  moreover have "fst (process_request ascii_db sample_ner failing_qa sample_request []) = Inl (Propagated ())"
    using process_request_all_or_nothing [OF sample_accepted, of sample_ner failing_qa "[]"]
    by (simp add: failing_qa_def sample_ner_def)
  ultimately show ?thesis
    using sample_accepted by blast
qed

text \<open>
  Claim C4, as amended. For an accepted request the QA pipeline is called when the NER
  call has returned, and then once, with the input text as question and as context; what
  the handler returns is then decided by the result of that call: its exception, or the
  response with the input text as \<open>qa.question\<close> and the answer and score of the
  call. When the NER call raises, the QA pipeline is not called. Whenever a response is
  returned, its \<open>qa.question\<close> is the input text.
\<close>

theorem qa_question_is_context:
  "is_text_in_allowed_domain db (text request) allowed_domains \<Longrightarrow>
     (\<forall>q c. Qa_call q c \<in> set (drop (length calls)
                 (snd (process_request db ner_pipeline qa_pipeline request calls)))
        \<longrightarrow> q = text request \<and> c = text request)
     \<and> (\<forall>es. ner_pipeline (text request) = Inr es \<longrightarrow>
          snd (process_request db ner_pipeline qa_pipeline request calls) =
            calls @ [Ner_call (text request), Qa_call (text request) (text request)]
          \<and> (\<forall>e. qa_pipeline (text request) (text request) = Inl e \<longrightarrow>
                fst (process_request db ner_pipeline qa_pipeline request calls) =
                  Inl (Propagated e))
          \<and> (\<forall>a. qa_pipeline (text request) (text request) = Inr a \<longrightarrow>
                fst (process_request db ner_pipeline qa_pipeline request calls) =
                  Inr \<lparr>ner = \<lparr>entities = map format_entity es\<rparr>,
                       qa = \<lparr>question = text request, answer = qa_answer a,
                             score = float (qa_score a)\<rparr>\<rparr>))
     \<and> (\<forall>e. ner_pipeline (text request) = Inl e \<longrightarrow>
          snd (process_request db ner_pipeline qa_pipeline request calls) =
            calls @ [Ner_call (text request)])
     \<and> (\<forall>resp. fst (process_request db ner_pipeline qa_pipeline request calls) = Inr resp
          \<longrightarrow> question (qa resp) = text request)"
  by (cases "ner_pipeline (text request)"; cases "qa_pipeline (text request) (text request)")
     (auto simp: process_request_accepted)

theorem qa_question_is_context_witness:
  "is_text_in_allowed_domain ascii_db (text sample_request) allowed_domains
   \<and> snd (process_request ascii_db sample_ner sample_qa sample_request []) =
       [Ner_call (text sample_request), Qa_call (text sample_request) (text sample_request)]
   \<and> fst (process_request ascii_db sample_ner sample_qa sample_request []) = Inr sample_response
   \<and> question (qa sample_response) = text sample_request"
proof -
  note c4 = qa_question_is_context [OF sample_accepted, of "[]" sample_ner sample_qa]
  have e: "sample_ner (text sample_request) =
      Inr [\<lparr>ner_word = py ''Nike'', ner_entity_group = py ''ORG'',
             ner_score = Float32 (Finite (995 / 1000))\<rparr>,
           \<lparr>ner_word = py ''running shoes'', ner_entity_group = py ''PRODUCT'',
             ner_score = Float32 (Finite (987 / 1000))\<rparr>]"
    by (simp add: sample_ner_def)
  have a: "sample_qa (text sample_request) (text sample_request) =
      Inr \<lparr>qa_answer = py ''Nike Air Zoom Pegasus'', qa_score = Float32 (Finite (978 / 1000))\<rparr>"
    by (simp add: sample_qa_def)
  note n = c4 [THEN conjunct2, THEN conjunct1, THEN spec, THEN mp, OF e]
  from n [THEN conjunct1]
  have s: "snd (process_request ascii_db sample_ner sample_qa sample_request []) =
       [Ner_call (text sample_request), Qa_call (text sample_request) (text sample_request)]"
    by (simp only: append_Nil)
  from n [THEN conjunct2, THEN conjunct2, THEN spec, THEN mp, OF a]
  have r: "fst (process_request ascii_db sample_ner sample_qa sample_request []) = Inr sample_response"
    by (simp add: format_entity_def sample_response_def sample_request_def)
  from c4 [THEN conjunct2, THEN conjunct2, THEN conjunct2, THEN spec, THEN mp, OF r]
  have q: "question (qa sample_response) = text sample_request" .
  from sample_accepted s r q show ?thesis
    by (intro conjI)
qed

text \<open>
  Claim C4 as it is written, for every request that passes the filter, fails: when the
  NER call raises, the handler stops there and the QA pipeline is never called.
\<close>

theorem qa_not_called_counterexample:
  "is_text_in_allowed_domain ascii_db (text sample_request) allowed_domains
   \<and> process_request ascii_db failing_ner sample_qa sample_request [] =
       (Inl (Propagated ()), [Ner_call (text sample_request)])
   \<and> Qa_call (text sample_request) (text sample_request)
        \<notin> set (snd (process_request ascii_db failing_ner sample_qa sample_request []))"
  by (simp add: process_request_accepted [OF sample_accepted] failing_ner_def sample_accepted)




text \<open>
  Claim C8. The root endpoint returns, whatever happened before, the dictionary with
  the one key \<open>message\<close> and the welcome text, and calls no pipeline.
\<close>

theorem root_body:
  "root calls = (Inr [(py ''message'', py ''Welcome to the filtered NER and QA API!'')], calls)"
  by (simp add: root_def)

text \<open>
  Claim C10. In a successful response the list of entities has one element for each
  entity the NER pipeline returned, in the same order; the element at each position
  has the word and the entity group of the pipeline's entity at that position, and as
  score the pipeline's score converted by \<open>float\<close>.
\<close>

theorem entities_copied_in_order:
  assumes "fst (process_request db ner_pipeline qa_pipeline request calls) = Inr resp"
  shows "\<exists>es. ner_pipeline (text request) = Inr es
     \<and> length (entities (ner resp)) = length es
     \<and> (\<forall>i<length es. word (entities (ner resp) ! i) = ner_word (es ! i)
           \<and> entity_group (entities (ner resp) ! i) = ner_entity_group (es ! i)
           \<and> Entity.score (entities (ner resp) ! i) = float (ner_score (es ! i)))"
proof -
  from assms obtain es a
    where es: "ner_pipeline (text request) = Inr es"
      and "qa_pipeline (text request) (text request) = Inr a"
      and "is_text_in_allowed_domain db (text request) allowed_domains"
      and resp: "resp = \<lparr>ner = \<lparr>entities = map format_entity es\<rparr>,
                qa = \<lparr>question = text request, answer = qa_answer a,
                      score = float (qa_score a)\<rparr>\<rparr>"
    by (rule process_request_Inr)
  have "length (entities (ner resp)) = length es"
    by (simp add: resp)
  moreover have "\<forall>i<length es. word (entities (ner resp) ! i) = ner_word (es ! i)
           \<and> entity_group (entities (ner resp) ! i) = ner_entity_group (es ! i)
           \<and> Entity.score (entities (ner resp) ! i) = float (ner_score (es ! i))"
    by (simp add: resp format_entity_def)
  ultimately show ?thesis
    using es by blast
qed

theorem entities_copied_in_order_witness:
  "fst (process_request ascii_db sample_ner sample_qa sample_request []) = Inr sample_response
   \<and> length (entities (ner sample_response)) = 2
   \<and> word (entities (ner sample_response) ! 1) = py ''running shoes''
   \<and> Entity.score (entities (ner sample_response) ! 1) = float (Float32 (Finite (987 / 1000)))"
proof -
  have r: "fst (process_request ascii_db sample_ner sample_qa sample_request []) = Inr sample_response"
    by (simp add: sample_run)
  from entities_copied_in_order [OF r] r show ?thesis
    by (auto simp: sample_ner_def)
qed

end
